theory Spec2Isabelle
  imports Complex_Main "HOL-Library.Sublist"
begin

section \<open>Python values used by the Jimaku provider\<close>

text \<open>
  The provider (\<^verbatim>\<open>custom_libs/subliminal_patch/providers/jimaku.py\<close>) works on decoded JSON,
  Python strings and a handful of exceptions. A string is given by the bytes of its UTF-8
  encoding, so that containment, suffixes and percent-encoding are those of the text.
  JSON numbers are integers. Python's \<^verbatim>\<open>None\<close> and JSON's
  \<^verbatim>\<open>null\<close> are the same value, \<open>JNull\<close>. An object is the list of its members, with
  distinct keys, in the order of the document.
\<close>

datatype error =
    ConfigurationError
  | AuthenticationError
  | APIThrottled
  | HTTPError int
  | ConnectionError
  | JSONDecodeError
  | TypeError
  | KeyError
  | AttributeError
  | IndexError
  | ValueError
  | MissingSchema
  | NotModelled

datatype json =
    JNull
  | JBool bool
  | JInt int
  | JStr string
  | JArr "json list"
  | JObj "(string \<times> json) list"

text \<open>Truth value of an object, as \<^verbatim>\<open>not data\<close> and \<^verbatim>\<open>if x:\<close> use it.\<close>

fun truthy :: "json \<Rightarrow> bool" where
  "truthy JNull = False"
| "truthy (JBool b) = b"
| "truthy (JInt i) = (i \<noteq> 0)"
| "truthy (JStr s) = (s \<noteq> [])"
| "truthy (JArr xs) = (xs \<noteq> [])"
| "truthy (JObj kvs) = (kvs \<noteq> [])"

text \<open>
  \<^verbatim>\<open>len(data)\<close>: a TypeError on values without a length. The program only compares the
  length with 0, where bytes and characters agree.
\<close>

fun py_len :: "json \<Rightarrow> error + nat" where
  "py_len (JStr s) = Inr (length s)"
| "py_len (JArr xs) = Inr (length xs)"
| "py_len (JObj kvs) = Inr (length kvs)"
| "py_len _ = Inl TypeError"

text \<open>\<^verbatim>\<open>key in data\<close> for a string key: element of a list, key of a dict, substring of a string.\<close>

fun py_in :: "string \<Rightarrow> json \<Rightarrow> error + bool" where
  "py_in k (JArr xs) = Inr (JStr k \<in> set xs)"
| "py_in k (JObj kvs) = Inr (k \<in> set (map fst kvs))"
| "py_in k (JStr s) = Inr (sublist k s)"
| "py_in k _ = Inl TypeError"

text \<open>\<^verbatim>\<open>for item in data\<close>: the elements of a list, the keys of a dict, the characters of a string.\<close>

fun py_iter :: "json \<Rightarrow> error + json list" where
  "py_iter (JArr xs) = Inr xs"
| "py_iter (JObj kvs) = Inr (map (\<lambda>kv. JStr (fst kv)) kvs)"
| "py_iter (JStr s) = Inr (map (\<lambda>c. JStr [c]) s)"
| "py_iter _ = Inl TypeError"

text \<open>\<^verbatim>\<open>data[0]\<close>.\<close>

fun py_first :: "json \<Rightarrow> error + json" where
  "py_first (JArr []) = Inl IndexError"
| "py_first (JArr (x # xs)) = Inr x"
| "py_first (JStr []) = Inl IndexError"
| "py_first (JStr (c # cs)) = Inr (JStr [c])"
| "py_first (JObj kvs) = Inl KeyError"
| "py_first _ = Inl TypeError"

text \<open>\<^verbatim>\<open>obj.get(key, default)\<close>; only a dict has the method.\<close>

fun py_get :: "json \<Rightarrow> string \<Rightarrow> json \<Rightarrow> error + json" where
  "py_get (JObj kvs) k d = Inr (case map_of kvs k of None \<Rightarrow> d | Some v \<Rightarrow> v)"
| "py_get _ k d = Inl AttributeError"

text \<open>\<^verbatim>\<open>obj[key]\<close> for a string key.\<close>

fun py_getitem :: "json \<Rightarrow> string \<Rightarrow> error + json" where
  "py_getitem (JObj kvs) k = (case map_of kvs k of None \<Rightarrow> Inl KeyError | Some v \<Rightarrow> Inr v)"
| "py_getitem _ k = Inl TypeError"

text \<open>\<^verbatim>\<open>s.endswith((suf1, suf2, ...))\<close> and \<^verbatim>\<open>s.lower()\<close>; only a string has the methods.\<close>

definition endswith :: "string \<Rightarrow> string list \<Rightarrow> bool" where
  "endswith s sufs = list_ex (\<lambda>suf. suffix suf s) sufs"

fun py_endswith :: "json \<Rightarrow> string list \<Rightarrow> error + bool" where
  "py_endswith (JStr s) sufs = Inr (endswith s sufs)"
| "py_endswith _ sufs = Inl AttributeError"

definition lower_char :: "char \<Rightarrow> char" where
  "lower_char c =
     (let n = (of_char c :: nat) in if 65 \<le> n \<and> n \<le> 90 then char_of (n + 32) else c)"

definition ascii_lower :: "string \<Rightarrow> string" where
  "ascii_lower s = map lower_char s"

definition is_ascii :: "string \<Rightarrow> bool" where
  "is_ascii s = list_all (\<lambda>c. (of_char c :: nat) < 128) s"

text \<open>
  \<^verbatim>\<open>s.lower()\<close>. On ASCII text it turns the letters A to Z into a to z and keeps the rest.
  On other text it follows the case tables of the Python runtime (where a character may
  become several, or change by its context); those tables are the parameter \<open>ul\<close>, the
  lowering of a text given by its bytes, of which nothing is assumed.
\<close>

definition lower :: "(string \<Rightarrow> string) \<Rightarrow> string \<Rightarrow> string" where
  "lower ul s = (if is_ascii s then ascii_lower s else ul s)"

fun py_lower :: "(string \<Rightarrow> string) \<Rightarrow> json \<Rightarrow> error + string" where
  "py_lower ul (JStr s) = Inr (lower ul s)"
| "py_lower ul _ = Inl AttributeError"

text \<open>\<^verbatim>\<open>x < n\<close> for an integer \<open>n\<close>: defined on integers and on booleans (which are integers).\<close>

fun py_lt_int :: "json \<Rightarrow> int \<Rightarrow> error + bool" where
  "py_lt_int (JInt i) n = Inr (i < n)"
| "py_lt_int (JBool b) n = Inr ((if b then 1 else 0) < n)"
| "py_lt_int _ n = Inl TypeError"

text \<open>\<^verbatim>\<open>str(i)\<close> for an integer: its decimal digits, with a minus sign below zero.\<close>

definition digit_char :: "nat \<Rightarrow> char" where
  "digit_char d = char_of (48 + d)"

function digits :: "nat \<Rightarrow> string" where
  "digits n = (if n < 10 then [digit_char n] else digits (n div 10) @ [digit_char (n mod 10)])"
  by pat_completeness auto
termination
  by (relation "measure (\<lambda>n. n)") auto

declare digits.simps [simp del]

definition str_int :: "int \<Rightarrow> string" where
  "str_int i = (if i < 0 then CHR ''-'' # digits (nat (- i)) else digits (nat i))"

text \<open>
  \<^verbatim>\<open>str(x)\<close> as f-strings apply it. The text Python prints for a list or a dict is left out
  of the model: \<open>NotModelled\<close> marks those inputs, and is no exception of the program.
\<close>

fun py_str :: "json \<Rightarrow> error + string" where
  "py_str JNull = Inr ''None''"
| "py_str (JBool b) = Inr (if b then ''True'' else ''False'')"
| "py_str (JInt i) = Inr (str_int i)"
| "py_str (JStr s) = Inr s"
| "py_str _ = Inl NotModelled"

definition str_opt :: "string option \<Rightarrow> string" where
  "str_opt s = (case s of None \<Rightarrow> ''None'' | Some t \<Rightarrow> t)"

section \<open>Videos, the provider and its subtitles\<close>

text \<open>
  The video classes come from the host library. A video is a movie or an episode (the
  provider's \<^verbatim>\<open>video_types\<close>); both inherit year, release group and AniList id from the
  base class, and only an episode has series, season and episode numbers.
\<close>

record video_base =
  year :: "int option"
  release_group :: "string option"
  anilist_id :: "int option"

record movie = video_base +
  title :: string
  alternative_titles :: "string list"

record episode = video_base +
  series :: string
  alternative_series :: "string list"
  season :: "int option"
  episode :: int
  series_anidb_episode_no :: int

datatype video = Movie movie | Episode episode

fun video_release_group :: "video \<Rightarrow> string option" where
  "video_release_group (Movie m) = release_group m"
| "video_release_group (Episode e) = release_group e"

fun video_anilist_id :: "video \<Rightarrow> int option" where
  "video_anilist_id (Movie m) = anilist_id m"
| "video_anilist_id (Episode e) = anilist_id e"

fun video_year :: "video \<Rightarrow> int option" where
  "video_year (Movie m) = year m"
| "video_year (Episode e) = year e"

fun is_episode :: "video \<Rightarrow> bool" where
  "is_episode (Episode e) = True"
| "is_episode (Movie m) = False"

text \<open>
  \<^verbatim>\<open>JimakuProvider\<close>: the constructor arguments, and the class attribute
  \<^verbatim>\<open>episode_number_override\<close> (\<^verbatim>\<open>False\<close> in the class, a switch for the host), kept as a
  field so that both settings can be examined. The numeric class attributes are constants.
\<close>

record provider =
  api_key :: string
  enable_archives :: bool
  enable_ai_subs :: bool
  episode_number_override :: bool

definition api_url :: string where
  "api_url = ''https://jimaku.cc/api''"

definition api_ratelimit_max_delay_seconds :: rat where
  "api_ratelimit_max_delay_seconds = 5"

definition api_ratelimit_backoff_limit :: nat where
  "api_ratelimit_backoff_limit = 3"

definition corrupted_file_size_threshold :: int where
  "corrupted_file_size_threshold = 500"

definition init :: "bool \<Rightarrow> bool \<Rightarrow> string \<Rightarrow> error + provider" where
  "init archives ai_subs key =
     (if key \<noteq> [] then
        Inr \<lparr>api_key = key, enable_archives = archives, enable_ai_subs = ai_subs,
             episode_number_override = False\<rparr>
      else Inl ConfigurationError)"

text \<open>\<^verbatim>\<open>JimakuSubtitle\<close>; \<open>content\<close> is unset (\<open>None\<close>) until a download attaches it.\<close>

record subtitle =
  video :: video
  subtitle_id :: string
  subtitle_url :: json
  subtitle_filename :: string
  release_info :: string
  content :: "string option"

definition JimakuSubtitle :: "video \<Rightarrow> string \<Rightarrow> json \<Rightarrow> string \<Rightarrow> subtitle" where
  "JimakuSubtitle v sid url fname =
     \<lparr>video = v, subtitle_id = sid, subtitle_url = url, subtitle_filename = fname,
      release_info = fname, content = None\<rparr>"

text \<open>Records of level warning and error written to the logger (info and debug are left out).\<close>

datatype log_record =
    WarnRatelimit rat nat
  | ErrNoItems string
  | ErrApiError
  | WarnUnverified json
  | WarnRetryOffset int int
  | WarnOnlyArchives
  | WarnSkipAI string
  | WarnSkipCorrupt string json
  | WarnNotAnArchive

section \<open>The filters of \<^verbatim>\<open>_query\<close>\<close>

definition disabled_archives :: "string list" where
  "disabled_archives = [''.zip'', ''.rar'']"

text \<open>Line 173: the listed items whose name does not end in a disabled archive extension.\<close>

fun not_disabled_archives :: "json list \<Rightarrow> error + json list" where
  "not_disabled_archives [] = Inr []"
| "not_disabled_archives (item # items) =
     (case py_getitem item ''name'' of
        Inl e \<Rightarrow> Inl e
      | Inr n \<Rightarrow>
          (case py_endswith n disabled_archives of
             Inl e \<Rightarrow> Inl e
           | Inr b \<Rightarrow>
               (case not_disabled_archives items of
                  Inl e \<Rightarrow> Inl e
                | Inr r \<Rightarrow> Inr (if \<not> b then item # r else r))))"

text \<open>Lines 168 to 177: the blacklist of archive extensions for this call, and the warning.\<close>

definition archive_formats_blacklist ::
  "provider \<Rightarrow> json list \<Rightarrow> error + (string list \<times> log_record list)" where
  "archive_formats_blacklist p items =
     (if \<not> enable_archives p then
        (case not_disabled_archives items of
           Inl e \<Rightarrow> Inl e
         | Inr filter_list \<Rightarrow>
             if length filter_list = 0 then Inr ([''.7z''], [WarnOnlyArchives])
             else Inr ([''.7z''] @ disabled_archives, []))
      else Inr ([''.7z''], []))"

text \<open>Line 196: the synthesized id.\<close>

definition make_subtitle_id :: "json \<Rightarrow> int \<Rightarrow> string option \<Rightarrow> error + string" where
  "make_subtitle_id aid number rg =
     (case py_str aid of
        Inl e \<Rightarrow> Inl e
      | Inr a \<Rightarrow> Inr (a @ ''_'' @ str_int number @ ''_'' @ str_opt rg))"

text \<open>
  Lines 180 to 200: one iteration of the loop over the listed items. It yields the records
  it logs and the candidates it appends (none or one). \<open>episode_number\<close> is read for an
  episode only.
\<close>

definition process_item ::
  "(string \<Rightarrow> string) \<Rightarrow> provider \<Rightarrow> video \<Rightarrow> string list \<Rightarrow> json \<Rightarrow> int \<Rightarrow> json
     \<Rightarrow> error + (log_record list \<times> subtitle list)" where
  "process_item ul p v blacklist aid episode_number item =
     (case py_get item ''name'' JNull of
        Inl e \<Rightarrow> Inl e
      | Inr filename \<Rightarrow>
     (case py_get item ''url'' JNull of
        Inl e \<Rightarrow> Inl e
      | Inr url \<Rightarrow>
     (case (if \<not> enable_ai_subs p then
              (case py_lower ul filename of
                 Inl e \<Rightarrow> Inl e
               | Inr l \<Rightarrow> Inr (sublist ''whisperai'' l))
            else Inr False) of
        Inl e \<Rightarrow> Inl e
      | Inr True \<Rightarrow> Inr ([WarnSkipAI (case filename of JStr s \<Rightarrow> s | _ \<Rightarrow> [])], [])
      | Inr False \<Rightarrow>
     (case py_get item ''size'' (JInt corrupted_file_size_threshold) of
        Inl e \<Rightarrow> Inl e
      | Inr filesize \<Rightarrow>
     (case py_lt_int filesize corrupted_file_size_threshold of
        Inl e \<Rightarrow> Inl e
      | Inr True \<Rightarrow>
          Inr ([WarnSkipCorrupt
                  (case filename of JStr s \<Rightarrow> s | _ \<Rightarrow> []) filesize], [])
      | Inr False \<Rightarrow>
     (case py_endswith filename blacklist of
        Inl e \<Rightarrow> Inl e
      | Inr True \<Rightarrow> Inr ([], [])
      | Inr False \<Rightarrow>
          (let number = (if is_episode v then episode_number else 0) in
           case make_subtitle_id aid number (video_release_group v) of
             Inl e \<Rightarrow> Inl e
           | Inr sid \<Rightarrow>
               Inr ([], [JimakuSubtitle v sid url
                           (case filename of JStr s \<Rightarrow> s | _ \<Rightarrow> [])]))))))))"

text \<open>Lines 179 to 202: the loop, with the log and \<^verbatim>\<open>list_of_subtitles\<close> as accumulators.\<close>

fun item_loop ::
  "(string \<Rightarrow> string) \<Rightarrow> provider \<Rightarrow> video \<Rightarrow> string list \<Rightarrow> json \<Rightarrow> int \<Rightarrow> json list
     \<Rightarrow> log_record list \<Rightarrow> subtitle list \<Rightarrow> (error + subtitle list) \<times> log_record list" where
  "item_loop ul p v blacklist aid episode_number [] lg subs = (Inr subs, lg)"
| "item_loop ul p v blacklist aid episode_number (item # items) lg subs =
     (case process_item ul p v blacklist aid episode_number item of
        Inl e \<Rightarrow> (Inl e, lg)
      | Inr (l, s) \<Rightarrow> item_loop ul p v blacklist aid episode_number items (lg @ l) (subs @ s))"

text \<open>Lines 165 to 202: the filter stage of \<^verbatim>\<open>_query\<close> on the listed data.\<close>

definition filter_subtitles ::
  "(string \<Rightarrow> string) \<Rightarrow> provider \<Rightarrow> video \<Rightarrow> json \<Rightarrow> int \<Rightarrow> json \<Rightarrow> (error + subtitle list) \<times> log_record list" where
  "filter_subtitles ul p v aid episode_number data =
     (case py_iter data of
        Inl e \<Rightarrow> (Inl e, [])
      | Inr items \<Rightarrow>
          (case archive_formats_blacklist p items of
             Inl e \<Rightarrow> (Inl e, [])
           | Inr (blacklist, lg) \<Rightarrow> item_loop ul p v blacklist aid episode_number items lg []))"


fun is_skip_corrupt :: "error + (log_record list \<times> subtitle list) \<Rightarrow> bool" where
  "is_skip_corrupt (Inr ([WarnSkipCorrupt s z], [])) = True"
| "is_skip_corrupt _ = False"

section \<open>The HTTP session and the rate-limited fetcher\<close>

text \<open>
  A response of the \<^verbatim>\<open>requests\<close> library: status, the \<^verbatim>\<open>x-ratelimit-reset-after\<close> header
  (when present, the number it holds, kept exact), the decoded JSON body (\<open>None\<close> when the
  body is no JSON, where \<^verbatim>\<open>response.json()\<close> raises) and the raw body.
  The remote side is a function from the URL and the number of requests sent before to the
  response, or to the exception the transport raises.
\<close>

record response =
  status_code :: int
  ratelimit_reset_after :: "rat option"
  json_body :: "json option"
  raw_content :: string

type_synonym server = "string \<Rightarrow> nat \<Rightarrow> error + response"

text \<open>
  The state of one provider instance: the URLs requested so far, the delays slept, the log,
  and the store of \<^verbatim>\<open>functools.cache\<close> around \<^verbatim>\<open>_get_jimaku_response\<close> (most recent first).
\<close>

record session =
  requests :: "string list"
  slept :: "rat list"
  logged :: "log_record list"
  cache :: "(string \<times> json) list"

definition initialize :: session where
  "initialize = \<lparr>requests = [], slept = [], logged = [], cache = []\<rparr>"

definition session_get :: "server \<Rightarrow> string \<Rightarrow> session \<Rightarrow> (error + response) \<times> session" where
  "session_get srv url st =
     (srv url (length (requests st)), st\<lparr>requests := requests st @ [url]\<rparr>)"

definition add_log :: "log_record \<Rightarrow> session \<Rightarrow> session" where
  "add_log r st = st\<lparr>logged := logged st @ [r]\<rparr>"

text \<open>\<^verbatim>\<open>response.raise_for_status()\<close>: an HTTPError for every status from 400 to 599.\<close>

definition raise_for_status :: "response \<Rightarrow> error + unit" where
  "raise_for_status r =
     (if 400 \<le> status_code r \<and> status_code r < 600 then Inl (HTTPError (status_code r))
      else Inr ())"

text \<open>How one run of a loop body ends: it falls through to the next iteration, returns, or raises.\<close>

datatype 'a outcome = Continue | Return 'a | Raise error

text \<open>
  Lines 246 to 269: the body of the retry loop of \<^verbatim>\<open>_get_jimaku_response\<close>, with
  \<open>retry_count\<close> already incremented. \<^verbatim>\<open>time.sleep\<close> raises ValueError on a negative delay.
\<close>

definition fetch_attempt ::
  "server \<Rightarrow> string \<Rightarrow> nat \<Rightarrow> session \<Rightarrow> json outcome \<times> session" where
  "fetch_attempt srv url_path retry_count st =
     (case session_get srv (api_url @ ''/'' @ url_path) st of
        (Inl e, st1) \<Rightarrow> (Raise e, st1)
      | (Inr resp, st1) \<Rightarrow>
     (case (if status_code resp = 429 then
              (let api_reset_time =
                     (case ratelimit_reset_after resp of None \<Rightarrow> 5 | Some t \<Rightarrow> t);
                   reset_time =
                     (if api_reset_time > api_ratelimit_max_delay_seconds
                      then api_ratelimit_max_delay_seconds else api_reset_time);
                   st2 = add_log (WarnRatelimit reset_time retry_count) st1
               in if reset_time < 0 then (Inl ValueError, st2)
                  else (Inr (), st2\<lparr>slept := slept st2 @ [reset_time]\<rparr>))
            else if status_code resp = 401 then (Inl AuthenticationError, st1)
            else (Inr (), st1)) of
        (Inl e, st2) \<Rightarrow> (Raise e, st2)
      | (Inr u, st2) \<Rightarrow>
     (case raise_for_status resp of
        Inl e \<Rightarrow> (Raise e, st2)
      | Inr u \<Rightarrow>
     (case json_body resp of
        None \<Rightarrow> (Raise JSONDecodeError, st2)
      | Some data \<Rightarrow>
     (case py_len data of
        Inl e \<Rightarrow> (Raise e, st2)
      | Inr n \<Rightarrow>
          if n = 0 then (Return JNull, add_log (ErrNoItems url_path) st2)
          else
            (case py_in ''error'' data of
               Inl e \<Rightarrow> (Raise e, st2)
             | Inr True \<Rightarrow>
                 (case py_get data ''error'' JNull of
                    Inl e \<Rightarrow> (Raise e, st2)
                  | Inr msg \<Rightarrow>
                      (case py_get data ''code'' JNull of
                         Inl e \<Rightarrow> (Raise e, st2)
                       | Inr code \<Rightarrow> (Return JNull, add_log ErrApiError st2)))
             | Inr False \<Rightarrow> (Return data, st2)))))))"

text \<open>Lines 244 to 272: the retry loop, and the error after it.\<close>

function fetch_loop ::
  "server \<Rightarrow> string \<Rightarrow> nat \<Rightarrow> session \<Rightarrow> (error + json) \<times> session" where
  "fetch_loop srv url_path retry_count st =
     (if retry_count < api_ratelimit_backoff_limit then
        (case fetch_attempt srv url_path (retry_count + 1) st of
           (Continue, st1) \<Rightarrow> fetch_loop srv url_path (retry_count + 1) st1
         | (Return d, st1) \<Rightarrow> (Inr d, st1)
         | (Raise e, st1) \<Rightarrow> (Inl e, st1))
      else (Inl APIThrottled, st))"
  by pat_completeness auto
termination
  by (relation "measure (\<lambda>(srv, url_path, retry_count, st).
        api_ratelimit_backoff_limit - retry_count)") auto

declare fetch_loop.simps [simp del]

text \<open>
  Line 240: \<^verbatim>\<open>@cache\<close>. A call with a stored path returns the stored value and runs nothing;
  otherwise the body runs, and a value it returns (also \<^verbatim>\<open>None\<close>) is stored. An exception
  stores nothing.
\<close>

definition get_jimaku_response ::
  "server \<Rightarrow> string \<Rightarrow> session \<Rightarrow> (error + json) \<times> session" where
  "get_jimaku_response srv url_path st =
     (case map_of (cache st) url_path of
        Some r \<Rightarrow> (Inr r, st)
      | None \<Rightarrow>
          (case fetch_loop srv url_path 0 st of
             (Inl e, st1) \<Rightarrow> (Inl e, st1)
           | (Inr r, st1) \<Rightarrow> (Inr r, st1\<lparr>cache := (url_path, r) # cache st1\<rparr>)))"

text \<open>
  The session after a run of later fetches, one per path, whatever each of them returns or
  raises (a caller may catch the exception and go on).
\<close>

fun fetch_all :: "server \<Rightarrow> string list \<Rightarrow> session \<Rightarrow> session" where
  "fetch_all srv [] st = st"
| "fetch_all srv (path # paths) st = fetch_all srv paths (snd (get_jimaku_response srv path st))"

section \<open>Resolving the entry and listing its files\<close>

text \<open>
  \<^verbatim>\<open>urllib.parse.quote_plus\<close> on the bytes of the name: letters, digits and \<^verbatim>\<open>_.-~\<close> stay,
  a space becomes \<^verbatim>\<open>+\<close>, every other byte becomes \<^verbatim>\<open>%XX\<close>.
\<close>

definition hex_digit :: "nat \<Rightarrow> char" where
  "hex_digit n = (if n < 10 then char_of (48 + n) else char_of (55 + n))"

definition quote_char :: "char \<Rightarrow> string" where
  "quote_char c =
     (let n = (of_char c :: nat) in
      if (65 \<le> n \<and> n \<le> 90) \<or> (97 \<le> n \<and> n \<le> 122) \<or> (48 \<le> n \<and> n \<le> 57)
         \<or> c \<in> set ''_.-~'' then [c]
      else if c = CHR '' '' then ''+''
      else [CHR ''%'', hex_digit (n div 16), hex_digit (n mod 16)])"

definition quote_plus :: "string \<Rightarrow> string" where
  "quote_plus s = concat (map quote_char s)"

text \<open>
  Lines 285 to 302. The function is pure, so the \<^verbatim>\<open>@cache\<close> around it does not change
  what it returns.
\<close>

definition assemble_jimaku_search_url :: "video \<Rightarrow> string \<Rightarrow> string" where
  "assemble_jimaku_search_url v media_name =
     (case video_anilist_id v of
        Some a \<Rightarrow>
          if a \<noteq> 0 then ''entries/search'' @ ''?anilist_id='' @ str_int a
          else ''entries/search'' @ ''?query='' @ quote_plus media_name
      | None \<Rightarrow> ''entries/search'' @ ''?query='' @ quote_plus media_name)"

text \<open>Lines 117 to 125; comparing a missing season with 1 is a TypeError.\<close>

fun media_name :: "(string \<Rightarrow> string) \<Rightarrow> video \<Rightarrow> error + string" where
  "media_name ul (Movie m) = Inr (lower ul (title m))"
| "media_name ul (Episode e) =
     (case season e of
        None \<Rightarrow> Inl TypeError
      | Some s \<Rightarrow>
          (let season_addendum = (if s > 1 then Some (str_int s) else None) in
           case season_addendum of
             None \<Rightarrow> Inr (lower ul (series e))
           | Some a \<Rightarrow>
               if a \<noteq> [] then Inr (lower ul (series e) @ '' '' @ a) else Inr (lower ul (series e))))"

fun alternate_episode_number :: "video \<Rightarrow> int" where
  "alternate_episode_number (Episode e) = series_anidb_episode_no e"
| "alternate_episode_number (Movie m) = 0"

text \<open>Lines 152 to 155: the path of the file list.\<close>

definition files_url :: "video \<Rightarrow> json \<Rightarrow> int \<Rightarrow> error + string" where
  "files_url v entry_id episode_number =
     (case py_str entry_id of
        Inl e \<Rightarrow> Inl e
      | Inr i \<Rightarrow>
          if is_episode v then Inr (''entries/'' @ i @ ''/files?episode='' @ str_int episode_number)
          else Inr (''entries/'' @ i @ ''/files''))"

text \<open>
  Lines 148 to 163: the loop around the file-list request. It returns \<open>None\<close> for
  \<^verbatim>\<open>return None\<close>, and otherwise the data and the episode number it ends with.
\<close>

function files_loop ::
  "server \<Rightarrow> provider \<Rightarrow> video \<Rightarrow> json \<Rightarrow> nat \<Rightarrow> int \<Rightarrow> json \<Rightarrow> session
     \<Rightarrow> (error + (json \<times> int) option) \<times> session" where
  "files_loop srv p v entry_id retry_count episode_number data st =
     (if retry_count \<le> 1 then
        (case files_url v entry_id episode_number of
           Inl e \<Rightarrow> (Inl e, st)
         | Inr url \<Rightarrow>
        (case get_jimaku_response srv url st of
           (Inl e, st1) \<Rightarrow> (Inl e, st1)
         | (Inr d, st1) \<Rightarrow>
             if \<not> truthy d \<and> is_episode v \<and> episode_number_override p \<and> retry_count + 1 < 1 then
               files_loop srv p v entry_id (retry_count + 1) (alternate_episode_number v) d
                 (add_log (WarnRetryOffset episode_number (alternate_episode_number v)) st1)
             else if \<not> truthy d then (Inr None, st1)
             else files_loop srv p v entry_id (retry_count + 1) episode_number d st1))
      else (Inr (Some (data, episode_number)), st))"
  by pat_completeness auto
termination
  by (relation "measure (\<lambda>(srv, p, v, entry_id, retry_count, episode_number, data, st).
        2 - retry_count)") auto

declare files_loop.simps [simp del]

fun video_episode :: "video \<Rightarrow> int" where
  "video_episode (Episode e) = episode e"
| "video_episode (Movie m) = 0"

text \<open>
  Lines 117 to 142 of \<^verbatim>\<open>_query\<close>: the search for the entry. It returns \<open>None\<close> for
  \<^verbatim>\<open>return None\<close>, and otherwise the id and the AniList id of the first entry, with the data.
\<close>

definition resolve_entry ::
  "(string \<Rightarrow> string) \<Rightarrow> server \<Rightarrow> video \<Rightarrow> session \<Rightarrow> (error + (json \<times> json \<times> json) option) \<times> session" where
  "resolve_entry ul srv v st =
     (case media_name ul v of
        Inl e \<Rightarrow> (Inl e, st)
      | Inr name \<Rightarrow>
     (case get_jimaku_response srv (assemble_jimaku_search_url v name) st of
        (Inl e, st1) \<Rightarrow> (Inl e, st1)
      | (Inr data, st1) \<Rightarrow>
          if \<not> truthy data then (Inr None, st1)
          else
     (case py_first data of
        Inl e \<Rightarrow> (Inl e, st1)
      | Inr entry \<Rightarrow>
     (case py_get entry ''id'' JNull of
        Inl e \<Rightarrow> (Inl e, st1)
      | Inr entry_id \<Rightarrow>
     (case py_get entry ''anilist_id'' JNull of
        Inl e \<Rightarrow> (Inl e, st1)
      | Inr aid \<Rightarrow>
     (case py_get entry ''flags'' JNull of
        Inl e \<Rightarrow> (Inl e, st1)
      | Inr flags \<Rightarrow>
     (case py_get flags ''unverified'' JNull of
        Inl e \<Rightarrow> (Inl e, st1)
      | Inr unverified \<Rightarrow>
          (Inr (Some (entry_id, aid, data)),
           if truthy unverified then add_log (WarnUnverified entry_id) st1 else st1))))))))"

text \<open>
  Lines 116 to 202: \<^verbatim>\<open>_query\<close>. For a movie the variable \<open>episode_number\<close> is never bound
  and never read; the model carries 0 there.
\<close>

definition query ::
  "(string \<Rightarrow> string) \<Rightarrow> server \<Rightarrow> provider \<Rightarrow> video \<Rightarrow> session \<Rightarrow> (error + subtitle list option) \<times> session" where
  "query ul srv p v st =
     (case resolve_entry ul srv v st of
        (Inl e, st1) \<Rightarrow> (Inl e, st1)
      | (Inr None, st1) \<Rightarrow> (Inr None, st1)
      | (Inr (Some (entry_id, aid, data)), st1) \<Rightarrow>
     (case files_loop srv p v entry_id 0 (video_episode v) data st1 of
        (Inl e, st2) \<Rightarrow> (Inl e, st2)
      | (Inr None, st2) \<Rightarrow> (Inr None, st2)
      | (Inr (Some (files, episode_number)), st2) \<Rightarrow>
          (case filter_subtitles ul p v aid episode_number files of
             (Inl e, lg) \<Rightarrow> (Inl e, st2\<lparr>logged := logged st2 @ lg\<rparr>)
           | (Inr subs, lg) \<Rightarrow> (Inr (Some subs), st2\<lparr>logged := logged st2 @ lg\<rparr>))))"

text \<open>Lines 205 to 210: \<^verbatim>\<open>list_subtitles\<close>.\<close>

definition list_subtitles ::
  "(string \<Rightarrow> string) \<Rightarrow> server \<Rightarrow> provider \<Rightarrow> video \<Rightarrow> session \<Rightarrow> (error + subtitle list) \<times> session" where
  "list_subtitles ul srv p v st =
     (case query ul srv p v st of
        (Inl e, st1) \<Rightarrow> (Inl e, st1)
      | (Inr None, st1) \<Rightarrow> (Inr [], st1)
      | (Inr (Some subs), st1) \<Rightarrow> if subs = [] then (Inr [], st1) else (Inr subs, st1))"

section \<open>Downloading a subtitle\<close>

text \<open>
  \<^verbatim>\<open>rarfile.is_rarfile\<close>, \<^verbatim>\<open>zipfile.is_zipfile\<close> and the helper
  \<^verbatim>\<open>get_subtitle_from_archive\<close> of \<^verbatim>\<open>subliminal_patch.providers.utils\<close> are not part of the
  file; they are parameters. The helper returns the bytes of the chosen member, or \<^verbatim>\<open>None\<close>.
\<close>

datatype archive = RarFile string | ZipFile string

record archive_tools =
  is_rarfile :: "string \<Rightarrow> bool"
  is_zipfile :: "string \<Rightarrow> bool"
  get_subtitle_from_archive :: "archive \<Rightarrow> int \<Rightarrow> error + string option"

text \<open>Lines 226 to 238: \<^verbatim>\<open>_is_archive\<close>.\<close>

definition is_archive :: "archive_tools \<Rightarrow> string \<Rightarrow> archive option" where
  "is_archive t bytes =
     (if is_rarfile t bytes then Some (RarFile bytes)
      else if is_zipfile t bytes then Some (ZipFile bytes)
      else None)"

text \<open>\<^verbatim>\<open>subtitle.video.episode\<close>: a movie has no such attribute.\<close>

fun get_episode :: "video \<Rightarrow> error + int" where
  "get_episode (Episode e) = Inr (episode e)"
| "get_episode (Movie m) = Inl AttributeError"

text \<open>
  Lines 212 to 224: \<^verbatim>\<open>download_subtitle\<close>. It returns the subtitle as the call leaves it.
  A URL that is no string has no scheme, which \<^verbatim>\<open>requests\<close> refuses.
\<close>

definition download_subtitle ::
  "server \<Rightarrow> archive_tools \<Rightarrow> subtitle \<Rightarrow> session \<Rightarrow> (error + subtitle) \<times> session" where
  "download_subtitle srv t sub st =
     (case subtitle_url sub of
        JStr target_url \<Rightarrow>
          (case session_get srv target_url st of
             (Inl e, st1) \<Rightarrow> (Inl e, st1)
           | (Inr resp, st1) \<Rightarrow>
          (case raise_for_status resp of
             Inl e \<Rightarrow> (Inl e, st1)
           | Inr u \<Rightarrow>
          (case is_archive t (raw_content resp) of
             Some arch \<Rightarrow>
               (case get_episode (video sub) of
                  Inl e \<Rightarrow> (Inl e, st1)
                | Inr ep \<Rightarrow>
                    (case get_subtitle_from_archive t arch ep of
                       Inl e \<Rightarrow> (Inl e, st1)
                     | Inr c \<Rightarrow> (Inr (sub\<lparr>content := c\<rparr>), st1)))
           | None \<Rightarrow>
               if endswith target_url [''.zip'', ''.rar'']
               then (Inr sub, add_log WarnNotAnArchive st1)
               else (Inr (sub\<lparr>content := Some (raw_content resp)\<rparr>), st1))))
      | _ \<Rightarrow> (Inl MissingSchema, st))"

section \<open>Matching a subtitle against a video\<close>

text \<open>
  \<^verbatim>\<open>s[i]\<close> on a string: the character at \<open>i\<close> as a string, or IndexError. The strings
  indexed are the keys of a guess, which are ASCII, one byte for each character.
\<close>

definition py_char :: "string \<Rightarrow> nat \<Rightarrow> error + string" where
  "py_char s i = (if i < length s then Inr [s ! i] else Inl IndexError)"

text \<open>Line 76: the condition \<^verbatim>\<open>g[0] == "release_group" or "source"\<close>, given \<^verbatim>\<open>g[0]\<close>.\<close>

definition guess_guard :: "string \<Rightarrow> bool" where
  "guess_guard g0 = (if g0 = ''release_group'' then True else truthy (JStr ''source''))"

text \<open>
  Lines 75 to 79: the loop over the guess. Iterating the dict that \<^verbatim>\<open>guessit\<close> returns yields
  its keys; \<open>rg\<close> is \<^verbatim>\<open>video.release_group\<close>.
\<close>

fun guess_loop :: "string option \<Rightarrow> string list \<Rightarrow> string set \<Rightarrow> error + string set" where
  "guess_loop rg [] matches = Inr matches"
| "guess_loop rg (g # gs) matches =
     (case py_char g 0 of
        Inl e \<Rightarrow> Inl e
      | Inr g0 \<Rightarrow>
          if guess_guard g0 then
            (case py_char g 1 of
               Inl e \<Rightarrow> Inl e
             | Inr g1 \<Rightarrow>
                 if rg = Some g1 then Inr (insert ''release_group'' matches)
                 else guess_loop rg gs matches)
          else guess_loop rg gs matches)"

text \<open>
  Lines 73 to 81 of \<^verbatim>\<open>get_matches\<close>: from the set \<open>matches\<close> that lines 49 to 71 built and the
  dict \<open>guess\<close> returned by \<^verbatim>\<open>guessit\<close> (an external library), the set returned.
\<close>

definition get_matches_guess ::
  "video \<Rightarrow> (string \<times> json) list \<Rightarrow> string set \<Rightarrow> error + string set" where
  "get_matches_guess v guess matches = guess_loop (video_release_group v) (map fst guess) matches"

section \<open>Concrete inputs\<close>

definition ex_provider :: provider where
  "ex_provider = \<lparr>api_key = ''key'', enable_archives = False, enable_ai_subs = False,
     episode_number_override = False\<rparr>"

definition ex_episode :: video where
  "ex_episode = Episode \<lparr>year = None, release_group = Some ''Grp'', anilist_id = Some 1234,
     series = ''Show'', alternative_series = [], season = Some 2, episode = 5,
     series_anidb_episode_no = 17\<rparr>"

definition ex_file :: "string \<Rightarrow> int \<Rightarrow> json" where
  "ex_file n k = JObj [(''name'', JStr n), (''url'', JStr (''https://jimaku.cc/f/'' @ n)),
     (''size'', JInt k)]"

definition ex_file_no_size :: "string \<Rightarrow> json" where
  "ex_file_no_size n = JObj [(''name'', JStr n), (''url'', JStr (''https://jimaku.cc/f/'' @ n))]"

definition ex_movie :: video where
  "ex_movie = Movie \<lparr>year = Some 2001, release_group = Some ''Grp'', anilist_id = Some 199,
     title = ''Film'', alternative_titles = []\<rparr>"

definition ex_named :: "string \<Rightarrow> video" where
  "ex_named n = Episode \<lparr>year = None, release_group = Some ''Grp'', anilist_id = None,
     series = n, alternative_series = [], season = Some 1, episode = 5,
     series_anidb_episode_no = 5\<rparr>"

definition ex_entry :: "int \<Rightarrow> json \<Rightarrow> json" where
  "ex_entry i aid = JObj [(''id'', JInt i), (''anilist_id'', aid), (''name'', JStr ''Show''),
     (''english_name'', JStr ''Show''), (''flags'', JObj [(''unverified'', JBool False)])]"

definition ok_response :: "json \<Rightarrow> error + response" where
  "ok_response body = Inr \<lparr>status_code = 200, ratelimit_reset_after = None,
     json_body = Some body, raw_content = []\<rparr>"

definition status_response :: "int \<Rightarrow> rat option \<Rightarrow> error + response" where
  "status_response code reset = Inr \<lparr>status_code = code, ratelimit_reset_after = reset,
     json_body = None, raw_content = []\<rparr>"

text \<open>A server that answers the first request with 429 and every later one with an entry.\<close>

definition srv_429_then_200 :: server where
  "srv_429_then_200 url n =
     (if n = 0 then status_response 429 (Some 10)
      else ok_response (JArr [ex_entry 7 (JInt 1234)]))"

text \<open>A server that answers every request with 429.\<close>

definition srv_429 :: server where
  "srv_429 url n = status_response 429 (Some 10)"

text \<open>
  A catalog with one entry whose files are listed under the offset episode number 17 and
  not under the episode number 5.
\<close>

definition srv_cour :: server where
  "srv_cour url n =
     (if url = ''https://jimaku.cc/api/entries/search?anilist_id=1234''
        then ok_response (JArr [ex_entry 7 (JInt 1234)])
      else if url = ''https://jimaku.cc/api/entries/7/files?episode=5''
        then ok_response (JArr [])
      else if url = ''https://jimaku.cc/api/entries/7/files?episode=17''
        then ok_response (JArr [ex_file ''Show - 17.srt'' 9000])
      else status_response 404 None)"

text \<open>A catalog with two entries without AniList id, found by name.\<close>

definition srv_names :: server where
  "srv_names url n =
     (if url = ''https://jimaku.cc/api/entries/search?query=alpha''
        then ok_response (JArr [ex_entry 1 JNull])
      else if url = ''https://jimaku.cc/api/entries/search?query=beta''
        then ok_response (JArr [ex_entry 2 JNull])
      else if url = ''https://jimaku.cc/api/entries/1/files?episode=5''
        then ok_response (JArr [ex_file ''Alpha - 05.srt'' 9000])
      else if url = ''https://jimaku.cc/api/entries/2/files?episode=5''
        then ok_response (JArr [ex_file ''Beta - 05.srt'' 9000])
      else status_response 404 None)"

text \<open>A catalog that finds nothing, and one whose only file is too small.\<close>

definition srv_nothing :: server where
  "srv_nothing url n = ok_response (JArr [])"

definition srv_tiny :: server where
  "srv_tiny url n =
     (if url = ''https://jimaku.cc/api/entries/search?anilist_id=1234''
        then ok_response (JArr [ex_entry 7 (JInt 1234)])
      else ok_response (JArr [ex_file ''Show - 05.srt'' 12]))"

text \<open>A download whose body is a zip archive, and simple stand-ins for the archive tools.\<close>

definition srv_zip :: server where
  "srv_zip url n = Inr \<lparr>status_code = 200, ratelimit_reset_after = None, json_body = None,
     raw_content = ''PK-archive''\<rparr>"

definition ex_tools :: archive_tools where
  "ex_tools = \<lparr>is_rarfile = (\<lambda>b. take 4 b = ''Rar!''), is_zipfile = (\<lambda>b. take 2 b = ''PK''),
     get_subtitle_from_archive = (\<lambda>a ep. Inr (Some ''1 00:00:01 --> 00:00:02 text''))\<rparr>"

text \<open>A guess as \<^verbatim>\<open>guessit\<close> returns it for a file name, in the order of its keys.\<close>

definition ex_guess :: "(string \<times> json) list" where
  "ex_guess = [(''title'', JStr ''Show''), (''episode'', JInt 5), (''release_group'', JStr ''Grp''),
     (''source'', JStr ''Web''), (''type'', JStr ''episode'')]"

text \<open>
  Stand-ins for the case tables of the runtime: one that is never consulted on ASCII text,
  and one that lowers the capital I with dot above (U+0130, bytes C4 B0) at the end of a
  name as Python does, to i followed by the combining dot above (U+0307, bytes CC 87).
\<close>

definition ex_lower :: "string \<Rightarrow> string" where
  "ex_lower s = ascii_lower s"


text \<open>A catalog with one entry and one file for every episode.\<close>

definition srv_show :: server where
  "srv_show url n =
     (if url = ''https://jimaku.cc/api/entries/search?anilist_id=1234''
        then ok_response (JArr [ex_entry 7 (JInt 1234)])
      else ok_response (JArr [ex_file ''Show - 05.srt'' 9000]))"

section \<open>Properties of the filters\<close>





text \<open>
  C5. For a listed file that reaches the size check (its name is a string and the AI-origin
  filter lets it through) and whose size is an integer or absent, the corrupt-size filter
  discards the file if and only if the size is present and strictly below 500: size 499 is
  discarded, size 500 is kept, and a file without a size is kept.
\<close>

theorem corrupt_size_filter:
  assumes "map_of kvs ''name'' = Some (JStr s)"
    and "enable_ai_subs p \<or> \<not> sublist ''whisperai'' (lower ul s)"
    and "map_of kvs ''size'' = None \<or> (\<exists>k. map_of kvs ''size'' = Some (JInt k))"
  shows "is_skip_corrupt (process_item ul p v bl aid n (JObj kvs))
     \<longleftrightarrow> (\<exists>k. map_of kvs ''size'' = Some (JInt k) \<and> k < 500)"
  using assms
  by (auto simp: process_item_def Let_def corrupted_file_size_threshold_def
           split: sum.splits bool.splits)

theorem corrupt_size_filter_witness:
  "is_skip_corrupt (process_item ex_lower ex_provider ex_episode [''.7z''] (JInt 1234) 5 (ex_file ''a.srt'' 499))
   \<and> \<not> is_skip_corrupt (process_item ex_lower ex_provider ex_episode [''.7z''] (JInt 1234) 5 (ex_file ''a.srt'' 500))
   \<and> \<not> is_skip_corrupt (process_item ex_lower ex_provider ex_episode [''.7z''] (JInt 1234) 5 (ex_file_no_size ''a.srt''))"
proof -
  let ?u = "(''url'', JStr (''https://jimaku.cc/f/'' @ ''a.srt''))"
  let ?k1 = "[(''name'', JStr ''a.srt''), ?u, (''size'', JInt 499)]"
  let ?k2 = "[(''name'', JStr ''a.srt''), ?u, (''size'', JInt 500)]"
  let ?k3 = "[(''name'', JStr ''a.srt''), ?u]"
  have ai: "enable_ai_subs ex_provider \<or> \<not> sublist ''whisperai'' (lower ex_lower ''a.srt'')" by code_simp
  have a: "is_skip_corrupt (process_item ex_lower ex_provider ex_episode [''.7z''] (JInt 1234) 5 (JObj ?k1))"
    using corrupt_size_filter[of ?k1 "''a.srt''" ex_provider ex_lower ex_episode "[''.7z'']" "JInt 1234" 5] ai by simp
  have b: "\<not> is_skip_corrupt (process_item ex_lower ex_provider ex_episode [''.7z''] (JInt 1234) 5 (JObj ?k2))"
    using corrupt_size_filter[of ?k2 "''a.srt''" ex_provider ex_lower ex_episode "[''.7z'']" "JInt 1234" 5] ai by simp
  have c: "\<not> is_skip_corrupt (process_item ex_lower ex_provider ex_episode [''.7z''] (JInt 1234) 5 (JObj ?k3))"
    using corrupt_size_filter[of ?k3 "''a.srt''" ex_provider ex_lower ex_episode "[''.7z'']" "JInt 1234" 5] ai by simp
  from a b c show ?thesis unfolding ex_file_def ex_file_no_size_def by simp
qed

section \<open>Properties of the fetcher\<close>

text \<open>No run of the loop body falls through to a next iteration: the loop runs at most once.\<close>

lemma fetch_attempt_not_Continue:
  "fst (fetch_attempt srv url_path n st) \<noteq> Continue"
  by (auto simp: fetch_attempt_def Let_def split: prod.splits sum.splits option.splits if_splits bool.splits)

lemma fetch_loop_once:
  "fetch_loop srv url_path n st =
     (if n < api_ratelimit_backoff_limit then
        (case fetch_attempt srv url_path (n + 1) st of
           (Return d, st1) \<Rightarrow> (Inr d, st1)
         | (Raise e, st1) \<Rightarrow> (Inl e, st1)
         | (Continue, st1) \<Rightarrow> (Inl APIThrottled, st1))
      else (Inl APIThrottled, st))"
proof -
  obtain o1 st1 where a: "fetch_attempt srv url_path (Suc n) st = (o1, st1)"
    by (cases "fetch_attempt srv url_path (Suc n) st")
  with fetch_attempt_not_Continue[of srv url_path "Suc n" st] have "o1 \<noteq> Continue" by simp
  then show ?thesis
    by (subst fetch_loop.simps) (cases o1; simp add: a)
qed

lemma fetch_attempt_429:
  assumes "srv (api_url @ ''/'' @ url_path) (length (requests st)) = Inr resp"
    and "status_code resp = 429"
  shows "fst (fetch_attempt srv url_path n st) = Raise (HTTPError 429)
       \<or> fst (fetch_attempt srv url_path n st) = Raise ValueError"
  using assms
  by (auto simp: fetch_attempt_def session_get_def raise_for_status_def Let_def
           split: prod.splits sum.splits option.splits if_splits)

lemma ratelimit_never_retried:
  assumes "map_of (cache st) url_path = None"
    and "srv (api_url @ ''/'' @ url_path) (length (requests st)) = Inr resp"
    and "status_code resp = 429"
  shows "fst (get_jimaku_response srv url_path st) = Inl (HTTPError 429)
       \<or> fst (get_jimaku_response srv url_path st) = Inl ValueError"
proof -
  obtain o1 st1 where a: "fetch_attempt srv url_path (Suc 0) st = (o1, st1)"
    by (cases "fetch_attempt srv url_path (Suc 0) st")
  from fetch_attempt_429[of srv url_path st resp "Suc 0"] assms(2,3) a
  have "o1 = Raise (HTTPError 429) \<or> o1 = Raise ValueError" by simp
  then show ?thesis
    using assms(1) a
    by (auto simp: get_jimaku_response_def fetch_loop_once api_ratelimit_backoff_limit_def)
qed

text \<open>
  C1. The claim: after a 429 the fetcher sleeps and retries, so that a 429 followed by a 200
  returns the body of the 200. The code, on a server that answers 429 (reset after 10) and
  then 200: it sleeps the clamped 5 seconds, then \<^verbatim>\<open>raise_for_status\<close> (line 258, reached
  after the sleep) raises the HTTP error of the 429. One request is sent, nothing is retried.
\<close>

theorem ratelimit_then_ok_raises:
  "get_jimaku_response srv_429_then_200 ''entries/search?anilist_id=1234'' initialize
     = (Inl (HTTPError 429),
        \<lparr>requests = [''https://jimaku.cc/api/entries/search?anilist_id=1234''],
         slept = [5], logged = [WarnRatelimit 5 1], cache = []\<rparr>)"
  by code_simp

lemma ratelimit_thrice_raises:
  "get_jimaku_response srv_429 ''entries/search?anilist_id=1234'' initialize
     = (Inl (HTTPError 429),
        \<lparr>requests = [''https://jimaku.cc/api/entries/search?anilist_id=1234''],
         slept = [5], logged = [WarnRatelimit 5 1], cache = []\<rparr>)"
  by code_simp

text \<open>The store only grows: no step of the fetcher removes or replaces a stored path.\<close>

lemma fetch_attempt_cache: "cache (snd (fetch_attempt srv url_path n st)) = cache st"
  by (auto simp: fetch_attempt_def session_get_def add_log_def Let_def
           split: prod.splits sum.splits option.splits if_splits bool.splits)

lemma fetch_loop_cache: "cache (snd (fetch_loop srv url_path n st)) = cache st"
proof -
  obtain o1 st1 where a: "fetch_attempt srv url_path (n + 1) st = (o1, st1)"
    by (cases "fetch_attempt srv url_path (n + 1) st")
  with fetch_attempt_cache[of srv url_path "n + 1" st] have "cache st1 = cache st" by simp
  with a show ?thesis
    by (cases o1) (simp_all add: fetch_loop_once)
qed

lemma get_jimaku_response_hit:
  assumes "map_of (cache st) url_path = Some r"
  shows "get_jimaku_response srv url_path st = (Inr r, st)"
  using assms by (simp add: get_jimaku_response_def)

lemma get_jimaku_response_stores:
  assumes "get_jimaku_response srv url_path st = (Inr r, st1)"
  shows "map_of (cache st1) url_path = Some r"
  using assms
  by (auto simp: get_jimaku_response_def split: option.splits prod.splits sum.splits)

lemma get_jimaku_response_keeps:
  assumes "map_of (cache st) url_path = Some r"
  shows "map_of (cache (snd (get_jimaku_response srv other st))) url_path = Some r"
proof (cases "map_of (cache st) other")
  case (Some x)
  with assms show ?thesis by (simp add: get_jimaku_response_def)
next
  case None
  with assms have ne: "other \<noteq> url_path" by auto
  obtain res st1 where f: "fetch_loop srv other 0 st = (res, st1)"
    by (cases "fetch_loop srv other 0 st")
  with fetch_loop_cache[of srv other 0 st] have c: "cache st1 = cache st" by simp
  show ?thesis
  proof (cases res)
    case (Inl e)
    with None f c assms show ?thesis by (simp add: get_jimaku_response_def)
  next
    case (Inr x)
    with None f c assms ne show ?thesis by (simp add: get_jimaku_response_def)
  qed
qed

lemma fetch_all_keeps:
  assumes "map_of (cache st) url_path = Some r"
  shows "map_of (cache (fetch_all srv paths st)) url_path = Some r"
  using assms
proof (induction paths arbitrary: st)
  case Nil
  then show ?case by simp
next
  case (Cons path paths)
  from get_jimaku_response_keeps[OF Cons.prems]
  have "map_of (cache (snd (get_jimaku_response srv path st))) url_path = Some r" .
  from Cons.IH[OF this] show ?case by simp
qed

text \<open>
  C9. A fetch that returned a value (data or \<^verbatim>\<open>None\<close>) is memoized for the life of the
  instance: after any run of later fetches of any paths, and whatever else the session
  requested, slept or logged meanwhile, a fetch of the same path returns the same value and
  leaves the session as it is, so no request is sent; the result does not depend on what
  the server would answer.
\<close>

theorem fetch_memoized:
  assumes "get_jimaku_response srv url_path st = (Inr r, st1)"
    and "cache st2 = cache (fetch_all srv2 paths st1)"
  shows "get_jimaku_response srv3 url_path st2 = (Inr r, st2)"
proof -
  from get_jimaku_response_stores[OF assms(1)] have "map_of (cache st1) url_path = Some r" .
  from fetch_all_keeps[OF this] have "map_of (cache (fetch_all srv2 paths st1)) url_path = Some r" .
  with assms(2) have "map_of (cache st2) url_path = Some r" by simp
  then show ?thesis by (rule get_jimaku_response_hit)
qed

lemma pair_fst_collapse:
  assumes "fst x = a"
  shows "x = (a, snd x)"
  using assms by (cases x) auto

theorem fetch_memoized_witness:
  "get_jimaku_response srv_429 ''entries/search?anilist_id=1234''
     (fetch_all srv_cour [''entries/7/files?episode=5'', ''entries/7/files?episode=17'']
        (snd (get_jimaku_response srv_cour ''entries/search?anilist_id=1234'' initialize)))
   = (Inr (JArr [ex_entry 7 (JInt 1234)]),
      fetch_all srv_cour [''entries/7/files?episode=5'', ''entries/7/files?episode=17'']
        (snd (get_jimaku_response srv_cour ''entries/search?anilist_id=1234'' initialize)))
   \<and> get_jimaku_response srv_429 ''entries/7/files?episode=5''
     (fetch_all srv_cour [''entries/search?anilist_id=1234'', ''entries/7/files?episode=17'']
        (snd (get_jimaku_response srv_cour ''entries/7/files?episode=5'' initialize)))
   = (Inr JNull,
      fetch_all srv_cour [''entries/search?anilist_id=1234'', ''entries/7/files?episode=17'']
        (snd (get_jimaku_response srv_cour ''entries/7/files?episode=5'' initialize)))
   \<and> requests (fetch_all srv_cour [''entries/7/files?episode=5'', ''entries/7/files?episode=17'']
        (snd (get_jimaku_response srv_cour ''entries/search?anilist_id=1234'' initialize)))
   = [''https://jimaku.cc/api/entries/search?anilist_id=1234'',
      ''https://jimaku.cc/api/entries/7/files?episode=5'',
      ''https://jimaku.cc/api/entries/7/files?episode=17'']"
proof -
  have "fst (get_jimaku_response srv_cour ''entries/search?anilist_id=1234'' initialize)
          = Inr (JArr [ex_entry 7 (JInt 1234)])"
    by code_simp
  then have a: "get_jimaku_response srv_cour ''entries/search?anilist_id=1234'' initialize
      = (Inr (JArr [ex_entry 7 (JInt 1234)]),
         snd (get_jimaku_response srv_cour ''entries/search?anilist_id=1234'' initialize))"
    by (rule pair_fst_collapse)
  have "fst (get_jimaku_response srv_cour ''entries/7/files?episode=5'' initialize) = Inr JNull"
    by code_simp
  then have b: "get_jimaku_response srv_cour ''entries/7/files?episode=5'' initialize
      = (Inr JNull, snd (get_jimaku_response srv_cour ''entries/7/files?episode=5'' initialize))"
    by (rule pair_fst_collapse)
  have c: "requests (fetch_all srv_cour [''entries/7/files?episode=5'', ''entries/7/files?episode=17'']
        (snd (get_jimaku_response srv_cour ''entries/search?anilist_id=1234'' initialize)))
   = [''https://jimaku.cc/api/entries/search?anilist_id=1234'',
      ''https://jimaku.cc/api/entries/7/files?episode=5'',
      ''https://jimaku.cc/api/entries/7/files?episode=17'']"
    by code_simp
  from fetch_memoized[where ?srv2.0 = srv_cour and ?srv3.0 = srv_429
         and paths = "[''entries/7/files?episode=5'', ''entries/7/files?episode=17'']", OF a refl]
       fetch_memoized[where ?srv2.0 = srv_cour and ?srv3.0 = srv_429
         and paths = "[''entries/search?anilist_id=1234'', ''entries/7/files?episode=17'']", OF b refl] c
  show ?thesis by simp
qed

section \<open>Properties of the file listing\<close>

text \<open>A file list without data ends the loop in its first iteration, whatever the provider's switch.\<close>

lemma files_loop_no_data:
  assumes "files_url v entry_id ep = Inr url"
    and "get_jimaku_response srv url st = (Inr d, st1)"
    and "\<not> truthy d"
  shows "files_loop srv p v entry_id 0 ep data st = (Inr None, st1)"
  using assms by (subst files_loop.simps) simp

text \<open>
  C2. The claim: with the offset numbering enabled, an empty first file list is followed by
  one retry with the offset episode number. The code, with the switch on, on a catalog that
  lists files under episode 17 and none under episode 5: the test \<^verbatim>\<open>retry_count < 1\<close> of line
  159 comes after \<^verbatim>\<open>retry_count += 1\<close>, so it is false; the call returns no candidates after
  the search and one file-list request, and episode 17 is never requested.
\<close>

theorem cour_retry_not_taken:
  "list_subtitles ex_lower srv_cour (ex_provider\<lparr>episode_number_override := True\<rparr>) ex_episode initialize
     = (Inr [],
        \<lparr>requests = [''https://jimaku.cc/api/entries/search?anilist_id=1234'',
                     ''https://jimaku.cc/api/entries/7/files?episode=5''],
         slept = [], logged = [ErrNoItems ''entries/7/files?episode=5''],
         cache = [(''entries/7/files?episode=5'', JNull),
                  (''entries/search?anilist_id=1234'', JArr [ex_entry 7 (JInt 1234)])]\<rparr>)"
  by code_simp

section \<open>Properties of the download\<close>

text \<open>What a download does for the candidate of an episode, on every response outside 400 to 599.\<close>

lemma download_subtitle_episode:
  assumes "subtitle_url sub = JStr u" and "video sub = Episode e"
    and "srv u (length (requests st)) = Inr resp"
    and "status_code resp < 400 \<or> 600 \<le> status_code resp"
  shows "download_subtitle srv t sub st =
     (case is_archive t (raw_content resp) of
        Some arch \<Rightarrow>
          (case get_subtitle_from_archive t arch (episode e) of
             Inl err \<Rightarrow> (Inl err, st\<lparr>requests := requests st @ [u]\<rparr>)
           | Inr c \<Rightarrow> (Inr (sub\<lparr>content := c\<rparr>), st\<lparr>requests := requests st @ [u]\<rparr>))
      | None \<Rightarrow>
          if endswith u [''.zip'', ''.rar'']
          then (Inr sub, add_log WarnNotAnArchive (st\<lparr>requests := requests st @ [u]\<rparr>))
          else (Inr (sub\<lparr>content := Some (raw_content resp)\<rparr>), st\<lparr>requests := requests st @ [u]\<rparr>))"
  using assms
  by (auto simp: download_subtitle_def session_get_def raise_for_status_def
           split: option.splits sum.splits)

text \<open>
  C7. The claim: for every candidate, a body that is an archive has its matching member
  extracted and attached. The code, for the candidate of a movie whose download is a zip
  archive: line 219 reads \<^verbatim>\<open>subtitle.video.episode\<close>, which a movie does not have, and the
  call raises AttributeError instead of attaching content.
\<close>

theorem movie_archive_download_raises:
  "download_subtitle srv_zip ex_tools
     (JimakuSubtitle ex_movie ''199_0_Grp'' (JStr ''https://jimaku.cc/f/Film.zip'') ''Film.zip'')
     initialize
   = (Inl AttributeError,
      \<lparr>requests = [''https://jimaku.cc/f/Film.zip''], slept = [], logged = [], cache = []\<rparr>)"
  by code_simp

section \<open>Properties of \<^verbatim>\<open>list_subtitles\<close>\<close>

lemma resolve_entry_no_data:
  assumes "media_name ul v = Inr name"
    and "get_jimaku_response srv (assemble_jimaku_search_url v name) st = (Inr d, st1)"
    and "\<not> truthy d"
  shows "resolve_entry ul srv v st = (Inr None, st1)"
  using assms by (simp add: resolve_entry_def)

text \<open>
  C3. \<^verbatim>\<open>list_subtitles\<close> returns the empty list, and raises nothing, in each case of absence:
  the search for the entry fetches no data; an entry is resolved and the file list fetches
  no data; an entry and files are found and the filters keep none of the files. In each
  case the layer below yields \<^verbatim>\<open>None\<close> or an empty list.
\<close>

theorem list_subtitles_absence:
  "(media_name ul v = Inr name
      \<and> get_jimaku_response srv (assemble_jimaku_search_url v name) st = (Inr d, st1)
      \<and> \<not> truthy d
    \<longrightarrow> list_subtitles ul srv p v st = (Inr [], st1))
   \<and> (resolve_entry ul srv v st = (Inr (Some (entry_id, aid, d)), st1)
      \<and> files_url v entry_id (video_episode v) = Inr url
      \<and> get_jimaku_response srv url st1 = (Inr d2, st2)
      \<and> \<not> truthy d2
    \<longrightarrow> list_subtitles ul srv p v st = (Inr [], st2))
   \<and> (resolve_entry ul srv v st = (Inr (Some (entry_id, aid, d)), st1)
      \<and> files_loop srv p v entry_id 0 (video_episode v) d st1 = (Inr (Some (files, n)), st2)
      \<and> filter_subtitles ul p v aid n files = (Inr [], lg)
    \<longrightarrow> list_subtitles ul srv p v st = (Inr [], st2\<lparr>logged := logged st2 @ lg\<rparr>))"
proof (intro conjI impI)
  assume "media_name ul v = Inr name
      \<and> get_jimaku_response srv (assemble_jimaku_search_url v name) st = (Inr d, st1)
      \<and> \<not> truthy d"
  then have "resolve_entry ul srv v st = (Inr None, st1)"
    using resolve_entry_no_data by blast
  then show "list_subtitles ul srv p v st = (Inr [], st1)"
    by (simp add: list_subtitles_def query_def)
next
  assume a: "resolve_entry ul srv v st = (Inr (Some (entry_id, aid, d)), st1)
      \<and> files_url v entry_id (video_episode v) = Inr url
      \<and> get_jimaku_response srv url st1 = (Inr d2, st2)
      \<and> \<not> truthy d2"
  then have "files_loop srv p v entry_id 0 (video_episode v) d st1 = (Inr None, st2)"
    using files_loop_no_data by blast
  with a show "list_subtitles ul srv p v st = (Inr [], st2)"
    by (simp add: list_subtitles_def query_def)
next
  assume "resolve_entry ul srv v st = (Inr (Some (entry_id, aid, d)), st1)
      \<and> files_loop srv p v entry_id 0 (video_episode v) d st1 = (Inr (Some (files, n)), st2)
      \<and> filter_subtitles ul p v aid n files = (Inr [], lg)"
  then show "list_subtitles ul srv p v st = (Inr [], st2\<lparr>logged := logged st2 @ lg\<rparr>)"
    by (simp add: list_subtitles_def query_def)
qed

theorem list_subtitles_absence_witness:
  "fst (list_subtitles ex_lower srv_nothing ex_provider ex_episode initialize) = Inr []
   \<and> fst (list_subtitles ex_lower srv_cour ex_provider ex_episode initialize) = Inr []
   \<and> fst (list_subtitles ex_lower srv_tiny ex_provider ex_episode initialize) = Inr []"
proof -
  let ?u = "''entries/search?anilist_id=1234''"
  let ?d = "JArr [ex_entry 7 (JInt 1234)]"
  have mn: "media_name ex_lower ex_episode = Inr ''show 2''" by code_simp
  have su: "assemble_jimaku_search_url ex_episode ''show 2'' = ?u" by code_simp
  have "fst (get_jimaku_response srv_nothing ?u initialize) = Inr JNull" by code_simp
  then have g1: "get_jimaku_response srv_nothing (assemble_jimaku_search_url ex_episode ''show 2'') initialize
      = (Inr JNull, snd (get_jimaku_response srv_nothing ?u initialize))"
    unfolding su by (rule pair_fst_collapse)
  have a: "fst (list_subtitles ex_lower srv_nothing ex_provider ex_episode initialize) = Inr []"
    using list_subtitles_absence[of ex_lower ex_episode "''show 2''" srv_nothing initialize JNull
       "snd (get_jimaku_response srv_nothing ?u initialize)" ex_provider] mn g1
    by simp
  have "fst (resolve_entry ex_lower srv_cour ex_episode initialize) = Inr (Some (JInt 7, JInt 1234, ?d))"
    by code_simp
  then have r2: "resolve_entry ex_lower srv_cour ex_episode initialize
      = (Inr (Some (JInt 7, JInt 1234, ?d)), snd (resolve_entry ex_lower srv_cour ex_episode initialize))"
    by (rule pair_fst_collapse)
  have fu: "files_url ex_episode (JInt 7) (video_episode ex_episode) = Inr ''entries/7/files?episode=5''"
    by code_simp
  have "fst (get_jimaku_response srv_cour ''entries/7/files?episode=5''
          (snd (resolve_entry ex_lower srv_cour ex_episode initialize))) = Inr JNull"
    by code_simp
  then have g2: "get_jimaku_response srv_cour ''entries/7/files?episode=5''
          (snd (resolve_entry ex_lower srv_cour ex_episode initialize))
      = (Inr JNull, snd (get_jimaku_response srv_cour ''entries/7/files?episode=5''
          (snd (resolve_entry ex_lower srv_cour ex_episode initialize))))"
    by (rule pair_fst_collapse)
  have b: "fst (list_subtitles ex_lower srv_cour ex_provider ex_episode initialize) = Inr []"
    using list_subtitles_absence[of ex_lower ex_episode _ srv_cour initialize ?d
       "snd (resolve_entry ex_lower srv_cour ex_episode initialize)" ex_provider "JInt 7" "JInt 1234"
       "''entries/7/files?episode=5''" JNull
       "snd (get_jimaku_response srv_cour ''entries/7/files?episode=5''
          (snd (resolve_entry ex_lower srv_cour ex_episode initialize)))"] r2 fu g2
    by simp
  let ?f = "JArr [ex_file ''Show - 05.srt'' 12]"
  have "fst (resolve_entry ex_lower srv_tiny ex_episode initialize) = Inr (Some (JInt 7, JInt 1234, ?d))"
    by code_simp
  then have r3: "resolve_entry ex_lower srv_tiny ex_episode initialize
      = (Inr (Some (JInt 7, JInt 1234, ?d)), snd (resolve_entry ex_lower srv_tiny ex_episode initialize))"
    by (rule pair_fst_collapse)
  have "fst (files_loop srv_tiny ex_provider ex_episode (JInt 7) 0 (video_episode ex_episode) ?d
          (snd (resolve_entry ex_lower srv_tiny ex_episode initialize))) = Inr (Some (?f, 5))"
    by code_simp
  then have l3: "files_loop srv_tiny ex_provider ex_episode (JInt 7) 0 (video_episode ex_episode) ?d
          (snd (resolve_entry ex_lower srv_tiny ex_episode initialize))
      = (Inr (Some (?f, 5)), snd (files_loop srv_tiny ex_provider ex_episode (JInt 7) 0
          (video_episode ex_episode) ?d (snd (resolve_entry ex_lower srv_tiny ex_episode initialize))))"
    by (rule pair_fst_collapse)
  have f3: "filter_subtitles ex_lower ex_provider ex_episode (JInt 1234) 5 ?f
      = (Inr [], [WarnSkipCorrupt ''Show - 05.srt'' (JInt 12)])"
    by code_simp
  have c: "fst (list_subtitles ex_lower srv_tiny ex_provider ex_episode initialize) = Inr []"
    using list_subtitles_absence[of ex_lower ex_episode _ srv_tiny initialize ?d
       "snd (resolve_entry ex_lower srv_tiny ex_episode initialize)" ex_provider "JInt 7" "JInt 1234"
       _ _ "snd (files_loop srv_tiny ex_provider ex_episode (JInt 7) 0
          (video_episode ex_episode) ?d (snd (resolve_entry ex_lower srv_tiny ex_episode initialize)))"
       ?f 5 "[WarnSkipCorrupt ''Show - 05.srt'' (JInt 12)]"] r3 l3 f3
    by simp
  from a b c show ?thesis by simp
qed

section \<open>Properties of the release-group match\<close>

lemma guess_guard_True: "guess_guard g0"
  by (simp add: guess_guard_def)

lemma py_char_not_release_group: "py_char g 0 = Inr g0 \<Longrightarrow> g0 \<noteq> ''release_group''"
  by (auto simp: py_char_def split: if_splits)

lemma guess_loop_result:
  assumes "\<forall>g \<in> set gs. 2 \<le> length g"
  shows "\<exists>m. guess_loop rg gs matches = Inr m
     \<and> (''release_group'' \<in> m \<longleftrightarrow>
          ''release_group'' \<in> matches \<or> (\<exists>g \<in> set gs. rg = Some [g ! 1]))"
  using assms
proof (induction gs)
  case Nil
  then show ?case by simp
next
  case (Cons g gs)
  then have len: "2 \<le> length g" and rest: "\<forall>g \<in> set gs. 2 \<le> length g" by simp_all
  from len have "0 < length g" and "1 < length g" by linarith+
  then have c0: "py_char g 0 = Inr [g ! 0]" and c1: "py_char g (Suc 0) = Inr [g ! Suc 0]"
    unfolding py_char_def by simp_all
  show ?case
  proof (cases "rg = Some [g ! 1]")
    case True
    then show ?thesis by (simp add: c0 c1 guess_guard_True)
  next
    case False
    with Cons.IH[OF rest] show ?thesis by (simp add: c0 c1 guess_guard_True)
  qed
qed

text \<open>
  C10. In the loop of \<^verbatim>\<open>get_matches\<close> over the guess, the condition of line 76 holds for every
  key: its first operand compares one character with \<^verbatim>\<open>"release_group"\<close> and is false, its
  second is a non-empty string. With keys of two characters or more (every key of
  \<^verbatim>\<open>guessit\<close> is), the loop raises nothing, and it adds \<^verbatim>\<open>release_group\<close> if and only if the
  release group of the video equals the second character of some key. The values of the
  guess play no part: guesses with the same keys give the same matches.
\<close>

theorem release_group_guard:
  assumes "\<forall>g \<in> set (map fst guess). 2 \<le> length g"
    and "''release_group'' \<notin> matches"
  shows "(\<forall>g0. guess_guard g0)
     \<and> (\<forall>g g0. py_char g 0 = Inr g0 \<longrightarrow> g0 \<noteq> ''release_group'')
     \<and> (\<exists>m. get_matches_guess v guess matches = Inr m
          \<and> (''release_group'' \<in> m \<longleftrightarrow>
               (\<exists>g \<in> set (map fst guess). video_release_group v = Some [g ! 1])))
     \<and> (\<forall>guess'. map fst guess' = map fst guess \<longrightarrow>
          get_matches_guess v guess' matches = get_matches_guess v guess matches)"
proof -
  from guess_loop_result[OF assms(1), of "video_release_group v" matches] assms(2)
  have loop: "\<exists>m. get_matches_guess v guess matches = Inr m
          \<and> (''release_group'' \<in> m \<longleftrightarrow>
               (\<exists>g \<in> set (map fst guess). video_release_group v = Some [g ! 1]))"
    unfolding get_matches_guess_def by simp
  have same: "\<forall>guess'. map fst guess' = map fst guess \<longrightarrow>
          get_matches_guess v guess' matches = get_matches_guess v guess matches"
    unfolding get_matches_guess_def by simp
  have g: "\<forall>g0. guess_guard g0" using guess_guard_True by simp
  have c: "\<forall>g g0. py_char g 0 = Inr g0 \<longrightarrow> g0 \<noteq> ''release_group''"
    using py_char_not_release_group by blast
  from g c loop same show ?thesis by (intro conjI)
qed

theorem release_group_guard_witness:
  "''release_group'' \<in> projr (get_matches_guess (Episode \<lparr>year = None, release_group = Some ''e'',
       anilist_id = None, series = ''Show'', alternative_series = [], season = Some 1,
       episode = 5, series_anidb_episode_no = 5\<rparr>) ex_guess {''episode''})
   \<and> ''release_group'' \<notin> projr (get_matches_guess ex_episode ex_guess {''episode''})"
proof -
  let ?v = "Episode \<lparr>year = None, release_group = Some ''e'',
       anilist_id = None, series = ''Show'', alternative_series = [], season = Some 1,
       episode = 5, series_anidb_episode_no = 5\<rparr>"
  have len: "\<forall>g \<in> set (map fst ex_guess). 2 \<le> length g" by (simp add: ex_guess_def)
  have nin: "''release_group'' \<notin> {''episode''}" by simp
  have yes: "\<exists>g \<in> set (map fst ex_guess). video_release_group ?v = Some [g ! 1]"
    by (simp add: ex_guess_def)
  have no: "\<not> (\<exists>g \<in> set (map fst ex_guess). video_release_group ex_episode = Some [g ! 1])"
    by (simp add: ex_guess_def ex_episode_def)
  from release_group_guard[OF len nin, of ?v]
  obtain m where m: "get_matches_guess ?v ex_guess {''episode''} = Inr m"
    "''release_group'' \<in> m \<longleftrightarrow>
       (\<exists>g \<in> set (map fst ex_guess). video_release_group ?v = Some [g ! 1])"
    by blast
  from m(2) yes have "''release_group'' \<in> m" by blast
  with m(1) have a: "''release_group'' \<in> projr (get_matches_guess ?v ex_guess {''episode''})"
    by simp
  from release_group_guard[OF len nin, of ex_episode]
  obtain m' where m': "get_matches_guess ex_episode ex_guess {''episode''} = Inr m'"
    "''release_group'' \<in> m' \<longleftrightarrow>
       (\<exists>g \<in> set (map fst ex_guess). video_release_group ex_episode = Some [g ! 1])"
    by blast
  from m'(2) no have "''release_group'' \<notin> m'" by blast
  with m'(1) have b: "''release_group'' \<notin> projr (get_matches_guess ex_episode ex_guess {''episode''})"
    by simp
  from a b show ?thesis by simp
qed

section \<open>Properties of the archive exclusion\<close>



lemma process_item_shape:
  assumes "process_item ul p v bl aid ep item = Inr (l, ss)"
  shows "\<exists>kvs. item = JObj kvs"
  using assms by (cases item) (auto simp: process_item_def)

lemma process_item_result:
  assumes "process_item ul p v bl aid ep (JObj kvs) = Inr (l, ss)"
  shows "(ss = [] \<and> (l = [] \<or> (\<exists>s. l = [WarnSkipAI s]) \<or> (\<exists>s z. l = [WarnSkipCorrupt s z])))
       \<or> (l = [] \<and> (\<exists>sid s. map_of kvs ''name'' = Some (JStr s) \<and> \<not> endswith s bl
             \<and> make_subtitle_id aid (if is_episode v then ep else 0) (video_release_group v) = Inr sid
             \<and> ss = [JimakuSubtitle v sid (case map_of kvs ''url'' of None \<Rightarrow> JNull | Some u \<Rightarrow> u) s]))"
proof -
  obtain nm where nm: "py_get (JObj kvs) ''name'' JNull = Inr nm" by simp
  show ?thesis
  proof (cases nm)
    case (JStr s)
    with nm have m: "map_of kvs ''name'' = Some (JStr s)" by (auto split: option.splits)
    from assms show ?thesis
      unfolding process_item_def
      by (simp add: m Let_def split: sum.splits bool.splits if_splits) blast+
  qed (use assms nm in \<open>auto simp: process_item_def Let_def split: sum.splits bool.splits if_splits option.splits\<close>)
qed





lemma item_loop_Cons_Inr:
  assumes "item_loop ul p v bl aid ep (item # items) lg subs = (Inr out, lg')"
  obtains l ss where "process_item ul p v bl aid ep item = Inr (l, ss)"
    and "item_loop ul p v bl aid ep items (lg @ l) (subs @ ss) = (Inr out, lg')"
proof (cases "process_item ul p v bl aid ep item")
  case (Inl e)
  with assms show ?thesis by simp
next
  case (Inr r)
  obtain l ss where r: "r = (l, ss)" by (cases r)
  with Inr assms that show ?thesis by simp
qed









lemma pair_Inr_collapse:
  assumes "\<not> isl (fst x)"
  shows "x = (Inr (projr (fst x)), snd x)"
  using assms by (cases x; cases "fst x") auto






section \<open>Properties of the synthesized id\<close>

lemma of_char_digit_char: "d < 10 \<Longrightarrow> (of_char (digit_char d) :: nat) = 48 + d"
  by (simp add: digit_char_def)

lemma digits_chars: "c \<in> set (digits n) \<Longrightarrow> \<exists>d<10. c = digit_char d"
proof (induction n rule: digits.induct)
  case (1 n)
  show ?case
  proof (cases "n < 10")
    case True
    with "1.prems" show ?thesis by (subst (asm) digits.simps) auto
  next
    case False
    with "1.prems" have "c \<in> set (digits (n div 10)) \<or> c = digit_char (n mod 10)"
      by (subst (asm) digits.simps) auto
    then show ?thesis
    proof
      assume "c \<in> set (digits (n div 10))"
      with "1.IH"[OF False] show ?thesis .
    next
      assume "c = digit_char (n mod 10)"
      moreover have "n mod 10 < 10" by simp
      ultimately show ?thesis by blast
    qed
  qed
qed

lemma digits_not_special:
  assumes "c \<in> set (digits n)"
  shows "c \<noteq> CHR ''_'' \<and> c \<noteq> CHR ''-'' \<and> c \<noteq> CHR ''N''"
proof -
  from digits_chars[OF assms] obtain d where d: "d < 10" "c = digit_char d" by blast
  then have "(of_char c :: nat) = 48 + d" by (simp add: of_char_digit_char)
  with d(1) show ?thesis by auto
qed

lemma digits_nonempty: "digits n \<noteq> []"
  by (subst digits.simps) simp

lemma digits_value: "foldl (\<lambda>a c. 10 * a + (of_char c - 48)) 0 (digits n) = n"
proof (induction n rule: digits.induct)
  case (1 n)
  show ?case
  proof (cases "n < 10")
    case True
    then show ?thesis by (subst digits.simps) (simp add: of_char_digit_char)
  next
    case False
    have "n mod 10 < 10" by simp
    then have "(of_char (digit_char (n mod 10)) :: nat) = 48 + n mod 10"
      by (rule of_char_digit_char)
    with False "1.IH"[OF False] show ?thesis
      by (subst digits.simps) simp
  qed
qed

lemma digits_inj: "digits n = digits m \<Longrightarrow> n = m"
  by (metis digits_value)

lemma str_int_no_sep: "CHR ''_'' \<notin> set (str_int i)"
  using digits_not_special by (auto simp: str_int_def)

lemma str_int_inj:
  assumes "str_int i = str_int j"
  shows "i = j"
proof -
  have neg: "\<And>a b. CHR ''-'' # digits a \<noteq> digits b"
  proof
    fix a b assume "CHR ''-'' # digits a = digits b"
    then have "CHR ''-'' \<in> set (digits b)" by (metis list.set_intros(1))
    with digits_not_special show False by blast
  qed
  show ?thesis
  proof (cases "i < 0")
    case True
    note i = this
    show ?thesis
    proof (cases "j < 0")
      case True
      with i assms have "digits (nat (- i)) = digits (nat (- j))" by (simp add: str_int_def)
      then have "nat (- i) = nat (- j)" by (rule digits_inj)
      with i True show ?thesis by simp
    next
      case False
      with i assms have "CHR ''-'' # digits (nat (- i)) = digits (nat j)" by (simp add: str_int_def)
      with neg show ?thesis by blast
    qed
  next
    case False
    note i = this
    show ?thesis
    proof (cases "j < 0")
      case True
      with i assms have "CHR ''-'' # digits (nat (- j)) = digits (nat i)" by (simp add: str_int_def)
      with neg show ?thesis by blast
    next
      case False
      with i assms have "digits (nat i) = digits (nat j)" by (simp add: str_int_def)
      then have "nat i = nat j" by (rule digits_inj)
      with i False show ?thesis by simp
    qed
  qed
qed

lemma str_int_not_None: "str_int i \<noteq> ''None''"
proof
  assume a: "str_int i = ''None''"
  show False
  proof (cases "i < 0")
    case True
    with a show False by (simp add: str_int_def)
  next
    case False
    with a have "digits (nat i) = ''None''" by (simp add: str_int_def)
    then have "CHR ''N'' \<in> set (digits (nat i))" by simp
    with digits_not_special show False by blast
  qed
qed

lemma sep_split:
  assumes "c \<notin> set xs" and "c \<notin> set xs'" and "xs @ c # ys = xs' @ c # ys'"
  shows "xs = xs' \<and> ys = ys'"
  using assms
proof (induction xs arbitrary: xs')
  case Nil
  then show ?case by (cases xs') auto
next
  case (Cons x xs)
  then show ?case by (cases xs') auto
qed

lemma py_str_id_inj:
  assumes "a = JNull \<or> (\<exists>i. a = JInt i)" and "a' = JNull \<or> (\<exists>i. a' = JInt i)"
    and "py_str a = Inr s" and "py_str a' = Inr s"
  shows "a = a'"
  using assms str_int_inj str_int_not_None by (auto; metis)

lemma py_str_id_no_sep:
  assumes "a = JNull \<or> (\<exists>i. a = JInt i)" and "py_str a = Inr s"
  shows "CHR ''_'' \<notin> set s"
  using assms str_int_no_sep by auto


lemma make_subtitle_id_inj:
  assumes "a = JNull \<or> (\<exists>i. a = JInt i)" and "a' = JNull \<or> (\<exists>i. a' = JInt i)"
  shows "make_subtitle_id a n g = make_subtitle_id a' n' g'
     \<longleftrightarrow> a = a' \<and> n = n' \<and> str_opt g = str_opt g'"
proof
  assume eq: "make_subtitle_id a n g = make_subtitle_id a' n' g'"
  from assms(1) obtain s where s: "py_str a = Inr s" by auto
  from assms(2) obtain s' where s': "py_str a' = Inr s'" by auto
  from eq s s' have cat: "s @ CHR ''_'' # (str_int n @ CHR ''_'' # str_opt g)
      = s' @ CHR ''_'' # (str_int n' @ CHR ''_'' # str_opt g')"
    by (simp add: make_subtitle_id_def)
  from sep_split[OF py_str_id_no_sep[OF assms(1) s] py_str_id_no_sep[OF assms(2) s'] cat]
  have "s = s'" and rest: "str_int n @ CHR ''_'' # str_opt g = str_int n' @ CHR ''_'' # str_opt g'"
    by simp_all
  from sep_split[OF str_int_no_sep str_int_no_sep rest]
  have "str_int n = str_int n'" and g: "str_opt g = str_opt g'" by simp_all
  then have "n = n'" using str_int_inj by blast
  moreover from s s' \<open>s = s'\<close> have "a = a'" using py_str_id_inj[OF assms] by simp
  ultimately show "a = a' \<and> n = n' \<and> str_opt g = str_opt g'" using g by simp
next
  assume "a = a' \<and> n = n' \<and> str_opt g = str_opt g'"
  then have e: "a = a'" "n = n'" "str_opt g = str_opt g'" by simp_all
  show "make_subtitle_id a n g = make_subtitle_id a' n' g'"
    unfolding make_subtitle_id_def e ..
qed

lemma process_item_id:
  assumes "process_item ul p v bl aid ep item = Inr (l, ss)"
  shows "\<forall>s \<in> set ss. make_subtitle_id aid (if is_episode v then ep else 0)
            (video_release_group v) = Inr (subtitle_id s)"
proof -
  from process_item_shape[OF assms] obtain kvs where item: "item = JObj kvs" ..
  from process_item_result[OF assms[unfolded item]] show ?thesis
    by (auto simp: JimakuSubtitle_def)
qed

lemma item_loop_id:
  assumes "item_loop ul p v bl aid ep items lg subs = (Inr out, lg')"
    and "\<forall>s \<in> set subs. make_subtitle_id aid (if is_episode v then ep else 0)
            (video_release_group v) = Inr (subtitle_id s)"
  shows "\<forall>s \<in> set out. make_subtitle_id aid (if is_episode v then ep else 0)
            (video_release_group v) = Inr (subtitle_id s)"
  using assms
proof (induction items arbitrary: lg subs)
  case Nil
  then show ?case by simp
next
  case (Cons item items)
  from item_loop_Cons_Inr[OF Cons.prems(1)] obtain l ss
    where px: "process_item ul p v bl aid ep item = Inr (l, ss)"
      and loop: "item_loop ul p v bl aid ep items (lg @ l) (subs @ ss) = (Inr out, lg')"
    by blast
  from process_item_id[OF px] Cons.prems(2)
  have "\<forall>s \<in> set (subs @ ss). make_subtitle_id aid (if is_episode v then ep else 0)
            (video_release_group v) = Inr (subtitle_id s)" by auto
  from Cons.IH[OF loop this] show ?case .
qed

lemma filter_subtitles_id:
  assumes "filter_subtitles ul p v aid ep data = (Inr subs, lg)"
  shows "\<forall>s \<in> set subs. make_subtitle_id aid (if is_episode v then ep else 0)
            (video_release_group v) = Inr (subtitle_id s)"
proof -
  obtain items where it: "py_iter data = Inr items"
    using assms by (cases "py_iter data") (simp_all add: filter_subtitles_def)
  obtain bl lg0 where bl: "archive_formats_blacklist p items = Inr (bl, lg0)"
    using assms it by (cases "archive_formats_blacklist p items") (auto simp: filter_subtitles_def)
  from assms it bl have "item_loop ul p v bl aid ep items lg0 [] = (Inr subs, lg)"
    by (simp add: filter_subtitles_def)
  from item_loop_id[OF this] show ?thesis by simp
qed

lemma resolve_entry_Some:
  assumes "resolve_entry ul srv v st = (Inr (Some (entry_id, aid, d)), st1)"
  shows "\<exists>name st0 entry. media_name ul v = Inr name
           \<and> get_jimaku_response srv (assemble_jimaku_search_url v name) st = (Inr d, st0)
           \<and> py_first d = Inr entry
           \<and> py_get entry ''id'' JNull = Inr entry_id
           \<and> py_get entry ''anilist_id'' JNull = Inr aid"
  using assms
  by (auto simp: resolve_entry_def split: sum.splits prod.splits if_splits)

lemma list_subtitles_id:
  assumes "resolve_entry ul srv v st = (Inr (Some (entry_id, aid, d)), st1)"
    and "files_loop srv p v entry_id 0 (video_episode v) d st1 = (Inr (Some (files, n)), st2)"
    and "list_subtitles ul srv p v st = (Inr subs, st3)"
  shows "\<forall>s \<in> set subs. make_subtitle_id aid (if is_episode v then n else 0)
            (video_release_group v) = Inr (subtitle_id s)"
proof (cases "subs = []")
  case True
  then show ?thesis by simp
next
  case False
  obtain res lg where f: "filter_subtitles ul p v aid n files = (res, lg)"
    by (cases "filter_subtitles ul p v aid n files")
  show ?thesis
  proof (cases res)
    case (Inl e)
    with f assms show ?thesis by (simp add: list_subtitles_def query_def)
  next
    case (Inr fs)
    with f assms False have "fs = subs"
      by (simp add: list_subtitles_def query_def split: if_splits)
    with f Inr have "filter_subtitles ul p v aid n files = (Inr subs, lg)" by simp
    from filter_subtitles_id[OF this] show ?thesis .
  qed
qed

text \<open>
  C8, as the claim states it, fails: two episodes with different series names, no AniList
  id, the same episode number and the same release group, resolved to two different entries
  without AniList id, get candidates with the same id \<^verbatim>\<open>None_5_Grp\<close>. Neither the entry id nor
  the name is part of the id.
\<close>

theorem distinct_names_same_id:
  "map subtitle_id (case fst (list_subtitles ex_lower srv_names ex_provider (ex_named ''Alpha'')
                               initialize) of
                      Inl e \<Rightarrow> [] | Inr subs \<Rightarrow> subs) = [''None_5_Grp'']
   \<and> map subtitle_id (case fst (list_subtitles ex_lower srv_names ex_provider (ex_named ''Beta'')
                               initialize) of
                      Inl e \<Rightarrow> [] | Inr subs \<Rightarrow> subs) = [''None_5_Grp'']
   \<and> (''Alpha'', 5 :: int, Some ''Grp'') \<noteq> (''Beta'', 5, Some ''Grp'')"
  by code_simp

text \<open>
  C8, amended. The AniList id that \<^verbatim>\<open>_query\<close> works with is the one of the first entry of the
  search result. Every candidate that \<^verbatim>\<open>list_subtitles\<close> returns has the id built from that
  AniList id, the episode number the file-list loop ends with (0 for a movie) and the
  release group of the video, joined by \<^verbatim>\<open>_\<close>; the entry id is no part of it. For AniList ids
  that are integers or absent, two such ids are equal if and only if the AniList ids are
  equal, the numbers are equal and the release groups read the same (an absent one reads
  \<^verbatim>\<open>None\<close>).
\<close>

theorem subtitle_id_derivation:
  "(resolve_entry ul srv v st = (Inr (Some (entry_id, aid, d)), st1) \<longrightarrow>
      (\<exists>name st0 entry. media_name ul v = Inr name
           \<and> get_jimaku_response srv (assemble_jimaku_search_url v name) st = (Inr d, st0)
           \<and> py_first d = Inr entry
           \<and> py_get entry ''id'' JNull = Inr entry_id
           \<and> py_get entry ''anilist_id'' JNull = Inr aid))
   \<and> (resolve_entry ul srv v st = (Inr (Some (entry_id, aid, d)), st1)
      \<and> files_loop srv p v entry_id 0 (video_episode v) d st1 = (Inr (Some (files, n)), st2)
      \<and> list_subtitles ul srv p v st = (Inr subs, st3) \<longrightarrow>
      (\<forall>s \<in> set subs. make_subtitle_id aid (if is_episode v then n else 0)
            (video_release_group v) = Inr (subtitle_id s)))
   \<and> ((a = JNull \<or> (\<exists>i. a = JInt i)) \<and> (a' = JNull \<or> (\<exists>i. a' = JInt i)) \<longrightarrow>
      (make_subtitle_id a m g = make_subtitle_id a' m' g'
         \<longleftrightarrow> a = a' \<and> m = m' \<and> str_opt g = str_opt g'))"
  using resolve_entry_Some[of ul srv v st entry_id aid d st1]
    list_subtitles_id[of ul srv v st entry_id aid d st1 p files n st2 subs st3]
    make_subtitle_id_inj[of a a' m g m' g']
  by blast


theorem subtitle_id_derivation_witness:
  "list_all (\<lambda>s. make_subtitle_id (JInt 1234) 5 (Some ''Grp'') = Inr (subtitle_id s))
     (projr (fst (list_subtitles ex_lower srv_show ex_provider ex_episode initialize)))
   \<and> length (projr (fst (list_subtitles ex_lower srv_show ex_provider ex_episode initialize))) = 1
   \<and> make_subtitle_id (JInt 1234) 5 (Some ''Grp'') = Inr ''1234_5_Grp''
   \<and> make_subtitle_id (JInt 1234) 5 (Some ''Grp'') \<noteq> make_subtitle_id (JInt 1234) 6 (Some ''Grp'')
   \<and> make_subtitle_id JNull 5 (Some ''Grp'') \<noteq> make_subtitle_id (JInt 1234) 5 (Some ''Grp'')"
proof -
  let ?d = "JArr [ex_entry 7 (JInt 1234)]"
  let ?f = "JArr [ex_file ''Show - 05.srt'' 9000]"
  let ?r = "resolve_entry ex_lower srv_show ex_episode initialize"
  let ?l = "files_loop srv_show ex_provider ex_episode (JInt 7) 0 (video_episode ex_episode) ?d (snd ?r)"
  let ?x = "list_subtitles ex_lower srv_show ex_provider ex_episode initialize"
  have "fst ?r = Inr (Some (JInt 7, JInt 1234, ?d))" by code_simp
  then have r: "?r = (Inr (Some (JInt 7, JInt 1234, ?d)), snd ?r)" by (rule pair_fst_collapse)
  have "fst ?l = Inr (Some (?f, 5))" by code_simp
  then have l: "?l = (Inr (Some (?f, 5)), snd ?l)" by (rule pair_fst_collapse)
  have "\<not> isl (fst ?x)" by code_simp
  then have x: "?x = (Inr (projr (fst ?x)), snd ?x)" by (rule pair_Inr_collapse)
  have ep: "is_episode ex_episode" and rg: "video_release_group ex_episode = Some ''Grp''"
    by (simp_all add: ex_episode_def)
  from subtitle_id_derivation[of ex_lower srv_show ex_episode initialize "JInt 7" "JInt 1234" ?d
      "snd ?r" ex_provider ?f 5 "snd ?l" "projr (fst ?x)" "snd ?x"] r l x
  have "\<forall>s \<in> set (projr (fst ?x)). make_subtitle_id (JInt 1234) (if is_episode ex_episode then 5 else 0)
            (video_release_group ex_episode) = Inr (subtitle_id s)"
    by blast
  with ep rg have a: "list_all (\<lambda>s. make_subtitle_id (JInt 1234) 5 (Some ''Grp'') = Inr (subtitle_id s))
     (projr (fst ?x))"
    by (simp add: list_all_iff)
  have b: "length (projr (fst ?x)) = 1" by code_simp
  have c: "make_subtitle_id (JInt 1234) 5 (Some ''Grp'') = Inr ''1234_5_Grp''" by code_simp
  have d: "make_subtitle_id (JInt 1234) 5 (Some ''Grp'') \<noteq> make_subtitle_id (JInt 1234) 6 (Some ''Grp'')"
    using subtitle_id_derivation[where a = "JInt 1234" and a' = "JInt 1234" and m = 5 and m' = 6
        and g = "Some ''Grp''" and g' = "Some ''Grp''"]
    by simp
  have e: "make_subtitle_id JNull 5 (Some ''Grp'') \<noteq> make_subtitle_id (JInt 1234) 5 (Some ''Grp'')"
    using subtitle_id_derivation[where a = JNull and a' = "JInt 1234" and m = 5 and m' = 5
        and g = "Some ''Grp''" and g' = "Some ''Grp''"]
    by simp
  from a b c d e show ?thesis by (intro conjI)
qed

end
